theory Spec2Isabelle
  imports Complex_Main "HOL-Library.Option_ord"
begin

section \<open>Python values used by \<^verbatim>\<open>televoice_identification.py\<close>\<close>

text \<open>
  Exceptions are values. \<open>FileNotFoundError\<close> and \<open>PermissionError\<close> are the
  subclasses of \<open>OSError\<close> (which Python 3 also calls \<open>IOError\<close>) that the file
  operations of the module can raise; \<open>SystemExit n\<close> is what \<^verbatim>\<open>sys.exit(n)\<close> raises.
\<close>

datatype exn =
    FileNotFoundError
  | PermissionError
  | EOFError
  | UnpicklingError string
  | ValueError
  | SystemExit int
  | OtherError string

fun is_OSError :: "exn \<Rightarrow> bool" where
  "is_OSError FileNotFoundError = True"
| "is_OSError PermissionError = True"
| "is_OSError _ = False"

text \<open>
  A Python \<^verbatim>\<open>dict\<close> iterates in insertion order, so it is an association list whose
  keys are distinct. \<^verbatim>\<open>d.get(k)\<close> is \<open>dict_get d k\<close>, \<^verbatim>\<open>d[k] = v\<close> is
  \<open>dict_setitem\<close>: an existing key keeps its place, a new one goes to the end.
\<close>

type_synonym ('k, 'v) dict = "('k \<times> 'v) list"

definition dict_ok :: "('k, 'v) dict \<Rightarrow> bool" where
  "dict_ok d = distinct (map fst d)"

definition dict_keys :: "('k, 'v) dict \<Rightarrow> 'k list" where
  "dict_keys d = map fst d"

definition dict_values :: "('k, 'v) dict \<Rightarrow> 'v list" where
  "dict_values d = map snd d"

definition dict_get :: "('k, 'v) dict \<Rightarrow> 'k \<Rightarrow> 'v option" where
  "dict_get d k = map_of d k"

fun dict_setitem :: "('k, 'v) dict \<Rightarrow> 'k \<Rightarrow> 'v \<Rightarrow> ('k, 'v) dict" where
  "dict_setitem [] k v = [(k, v)]"
| "dict_setitem ((k', v') # d) k v =
     (if k' = k then (k, v) # d else (k', v') # dict_setitem d k v)"

text \<open>
  The builtins \<^verbatim>\<open>min(iterable, key=f)\<close> and \<^verbatim>\<open>max(iterable)\<close>: one pass that
  keeps the current best and replaces it only by a strictly better item, so the
  first of several equal items wins; an empty iterable raises \<open>ValueError\<close>.
\<close>

fun min_loop :: "('a \<Rightarrow> 'b::linorder) \<Rightarrow> 'a \<Rightarrow> 'a list \<Rightarrow> 'a" where
  "min_loop f best [] = best"
| "min_loop f best (x # xs) = (if f x < f best then min_loop f x xs else min_loop f best xs)"

fun max_loop :: "('a \<Rightarrow> 'b::linorder) \<Rightarrow> 'a \<Rightarrow> 'a list \<Rightarrow> 'a" where
  "max_loop f best [] = best"
| "max_loop f best (x # xs) = (if f best < f x then max_loop f x xs else max_loop f best xs)"

definition py_min :: "('a \<Rightarrow> 'b::linorder) \<Rightarrow> 'a list \<Rightarrow> exn + 'a" where
  "py_min f xs = (case xs of [] \<Rightarrow> Inl ValueError | x # rest \<Rightarrow> Inr (min_loop f x rest))"

definition py_max :: "('a \<Rightarrow> 'b::linorder) \<Rightarrow> 'a list \<Rightarrow> exn + 'a" where
  "py_max f xs = (case xs of [] \<Rightarrow> Inl ValueError | x # rest \<Rightarrow> Inr (max_loop f x rest))"

text \<open>
  \<^verbatim>\<open>os.path.basename\<close> and \<^verbatim>\<open>os.path.join\<close> of \<^verbatim>\<open>posixpath\<close>: the part after
  the last slash, and concatenation with one slash unless the second part is absolute.
\<close>

definition basename :: "string \<Rightarrow> string" where
  "basename p = rev (takeWhile (\<lambda>c. c \<noteq> CHR ''/'') (rev p))"

definition join :: "string \<Rightarrow> string \<Rightarrow> string" where
  "join a b =
     (if b \<noteq> [] \<and> hd b = CHR ''/'' then b
      else if a = [] \<or> last a = CHR ''/'' then a @ b
      else a @ ''/'' @ b)"

text \<open>\<^verbatim>\<open>str(b).upper()\<close> for a boolean \<open>b\<close>.\<close>

definition str_bool :: "bool \<Rightarrow> string" where
  "str_bool b = (if b then ''True'' else ''False'')"

definition upper_char :: "char \<Rightarrow> char" where
  "upper_char c =
     (case map_of (zip ''abcdefghijklmnopqrstuvwxyz'' ''ABCDEFGHIJKLMNOPQRSTUVWXYZ'') c of
        Some u \<Rightarrow> u
      | None \<Rightarrow> c)"

definition upper :: "string \<Rightarrow> string" where
  "upper s = map upper_char s"

section \<open>The class \<^verbatim>\<open>Result\<close>\<close>

text \<open>
  The fields set by \<^verbatim>\<open>__init__\<close>. The difference indices are the floats returned by
  the comparison, read as real numbers (no NaN, exact subtraction).
\<close>

type_synonym score_map = "(string, real) dict"

record Result =
  filepath :: string
  diff_indice :: score_map
  exe_time :: real

definition filename :: "Result \<Rightarrow> string" where
  "filename r = basename (filepath r)"

text \<open>
  \<^verbatim>\<open>(min(self.diff_indice, key=self.diff_indice.get), min(self.diff_indice.values()))\<close>:
  the first component is evaluated first; both raise \<open>ValueError\<close> on an empty mapping.
  The key function is applied to keys of the mapping only, where it returns the stored
  score, and \<open>Some a < Some b\<close> is \<open>a < b\<close>.
\<close>

definition matched_golden_ptn :: "Result \<Rightarrow> exn + (string \<times> real)" where
  "matched_golden_ptn r =
     (case py_min (dict_get (diff_indice r)) (dict_keys (diff_indice r)) of
        Inl e \<Rightarrow> Inl e
      | Inr k \<Rightarrow>
          (case py_min (\<lambda>v. v) (dict_values (diff_indice r)) of
             Inl e \<Rightarrow> Inl e
           | Inr v \<Rightarrow> Inr (k, v)))"

text \<open>\<^verbatim>\<open>max(self.diff_indice.values()) - min(self.diff_indice.values())\<close>\<close>

definition mrd :: "Result \<Rightarrow> exn + real" where
  "mrd r =
     (case py_max (\<lambda>v. v) (dict_values (diff_indice r)) of
        Inl e \<Rightarrow> Inl e
      | Inr hi \<Rightarrow>
          (case py_min (\<lambda>v. v) (dict_values (diff_indice r)) of
             Inl e \<Rightarrow> Inl e
           | Inr lo \<Rightarrow> Inr (hi - lo)))"

text \<open>
  \<^verbatim>\<open>result_type\<close>: \<^verbatim>\<open>self.mrd < 2000 and self.matched_golden_ptn[1] > 2000\<close> is
  evaluated left to right with short circuit; the fall-through returns
  \<^verbatim>\<open>str(self.filename[:2] == self.matched_golden_ptn[0][:2]).upper()\<close>.
\<close>

definition result_type :: "Result \<Rightarrow> exn + string" where
  "result_type r =
     (case mrd r of
        Inl e \<Rightarrow> Inl e
      | Inr m \<Rightarrow>
          (case (if m < 2000
                 then (case matched_golden_ptn r of Inl e \<Rightarrow> Inl e | Inr kv \<Rightarrow> Inr (snd kv > 2000))
                 else Inr False) of
             Inl e \<Rightarrow> Inl e
           | Inr True \<Rightarrow> Inr ''TYPICAL''
           | Inr False \<Rightarrow>
               (case matched_golden_ptn r of
                  Inl e \<Rightarrow> Inl e
                | Inr kv \<Rightarrow> Inr (upper (str_bool (take 2 (filename r) = take 2 (fst kv)))))))"

section \<open>Files, external collaborators and printed output\<close>

text \<open>
  What the module reads and writes is a file system: regular files with their
  content, directories with the names \<^verbatim>\<open>os.listdir\<close> returns for them, and the
  accesses that the operating system refuses with \<open>PermissionError\<close>.
\<close>

type_synonym path = string
type_synonym bytes = "nat list"

datatype access = Reading | Writing | Deleting

record filesystem =
  files :: "path \<rightharpoonup> bytes"
  dirs :: "path \<rightharpoonup> string list"
  denied :: "access \<Rightarrow> path \<Rightarrow> bool"

text \<open>\<^verbatim>\<open>open(p, 'rb')\<close> followed by reading the whole file.\<close>

definition open_rb :: "filesystem \<Rightarrow> path \<Rightarrow> exn + bytes" where
  "open_rb f p =
     (case files f p of
        None \<Rightarrow> Inl FileNotFoundError
      | Some bs \<Rightarrow> if denied f Reading p then Inl PermissionError else Inr bs)"

text \<open>
  \<^verbatim>\<open>os.path.dirname\<close> of \<^verbatim>\<open>posixpath\<close>: everything up to the last slash, without
  the slashes at its end unless it consists of slashes only.
\<close>

definition dirname :: "string \<Rightarrow> string" where
  "dirname p =
     (let head = rev (dropWhile (\<lambda>c. c \<noteq> CHR ''/'') (rev p))
      in if head \<noteq> [] \<and> head \<noteq> replicate (length head) CHR ''/''
         then rev (dropWhile (\<lambda>c. c = CHR ''/'') (rev head))
         else head)"

text \<open>
  \<^verbatim>\<open>open(p, 'wb')\<close>: \<open>FileNotFoundError\<close> when the folder of \<open>p\<close> does not exist (a
  path without folder part lies in the working directory); otherwise the file is
  created, or truncated, before anything is written.
\<close>

definition open_wb :: "filesystem \<Rightarrow> path \<Rightarrow> exn + filesystem" where
  "open_wb f p =
     (if dirname p \<noteq> [] \<and> dirs f (dirname p) = None then Inl FileNotFoundError
      else if denied f Writing p then Inl PermissionError
      else Inr (f\<lparr>files := (files f)(p \<mapsto> [])\<rparr>))"

definition write_all :: "filesystem \<Rightarrow> path \<Rightarrow> bytes \<Rightarrow> filesystem" where
  "write_all f p bs = f\<lparr>files := (files f)(p \<mapsto> bs)\<rparr>"

definition listdir :: "filesystem \<Rightarrow> path \<Rightarrow> exn + string list" where
  "listdir f p =
     (case dirs f p of
        None \<Rightarrow> Inl FileNotFoundError
      | Some names \<Rightarrow> if denied f Reading p then Inl PermissionError else Inr names)"

definition isfile :: "filesystem \<Rightarrow> path \<Rightarrow> bool" where
  "isfile f p = (files f p \<noteq> None)"

text \<open>\<^verbatim>\<open>os.remove(p)\<close>: the error it raises, if any, and the file system it leaves.\<close>

definition os_remove :: "filesystem \<Rightarrow> path \<Rightarrow> exn option \<times> filesystem" where
  "os_remove f p =
     (case files f p of
        None \<Rightarrow> (Some FileNotFoundError, f)
      | Some bs \<Rightarrow>
          if denied f Deleting p then (Some PermissionError, f)
          else (None, f\<lparr>files := (files f)(p := None)\<rparr>))"

text \<open>
  A fingerprint is the array of MFCC frames, a waveform the pair of sample rate and
  samples that \<^verbatim>\<open>scipy.io.wavfile.read\<close> returns, the reference library the dict of
  golden patterns.
\<close>

type_synonym fingerprint = "real list list"
type_synonym wave = "nat \<times> int list"
type_synonym library = "(string, fingerprint) dict"

text \<open>
  The collaborators that are not part of the module are parameters:
  \<^item> \<open>pickle_loads\<close>, \<open>pickle_dumps\<close>: the \<^verbatim>\<open>pickle\<close> encoding of a library;
  \<^item> \<open>wav_decode\<close>: \<^verbatim>\<open>scipy.io.wavfile.read\<close> on the content of a file;
  \<^item> \<open>mfcc\<close>: \<^verbatim>\<open>python_speech_features.mfcc(sig, rate, appendEnergy=False)\<close>;
  \<^item> \<open>ptns_cmp\<close>: the comparison \<^verbatim>\<open>ptns_cmp.ptns_cmp\<close>, with threshold, scan step
    and the multiprocessing flag;
  \<^item> \<open>ffmpeg\<close>: \<open>None\<close> when no executable of that name is found, otherwise what a
    run with the given argument list does to the file system;
  \<^item> \<open>time_at\<close>: the reading of \<^verbatim>\<open>time.time()\<close>, by the number of events so far;
  \<^item> \<open>others\<close>: what other processes do to the file system between two attempts
    to load the cache, by the number of events so far.
\<close>

record env =
  pickle_loads :: "bytes \<Rightarrow> exn + library"
  pickle_dumps :: "library \<Rightarrow> bytes"
  wav_decode :: "bytes \<Rightarrow> exn + wave"
  mfcc :: "wave \<Rightarrow> exn + fingerprint"
  ptns_cmp :: "library \<Rightarrow> fingerprint \<Rightarrow> real option \<Rightarrow> int \<Rightarrow> bool \<Rightarrow> exn + score_map"
  ffmpeg :: "(string list \<Rightarrow> filesystem \<Rightarrow> filesystem) option"
  time_at :: "nat \<Rightarrow> real"
  others :: "nat \<Rightarrow> filesystem \<Rightarrow> filesystem"

text \<open>
  The state threaded through the module: the file system and the trace of the
  calls made so far (printed lines and calls that touch files or run a tool).
\<close>

datatype event =
    Printed string
  | ListDir path
  | WavRead path
  | PickleLoad path
  | PickleDump path
  | Run "string list"
  | Remove path

record state =
  fs :: filesystem
  trace :: "event list"

definition emit :: "event \<Rightarrow> state \<Rightarrow> state" where
  "emit ev s = s\<lparr>trace := trace s @ [ev]\<rparr>"

definition py_time :: "env \<Rightarrow> state \<Rightarrow> real" where
  "py_time e s = time_at e (length (trace s))"

text \<open>
  \<^verbatim>\<open>pickle.load\<close> on an open file: on a file with no content it raises \<open>EOFError\<close>
  (``the pickle file created but binary content haven't been written in''); any other
  content is decoded by \<open>pickle_loads\<close>, which may raise as well.
\<close>

definition pickle_load :: "env \<Rightarrow> bytes \<Rightarrow> exn + library" where
  "pickle_load e bs = (if bs = [] then Inl EOFError else pickle_loads e bs)"

definition wav_read :: "env \<Rightarrow> filesystem \<Rightarrow> path \<Rightarrow> exn + wave" where
  "wav_read e f p = (case open_rb f p of Inl x \<Rightarrow> Inl x | Inr bs \<Rightarrow> wav_decode e bs)"

section \<open>\<^verbatim>\<open>read_golden_ptns\<close>\<close>

definition cache_path :: path where
  "cache_path = join ''temp'' ''golden_ptns.pickle''"

text \<open>The body of the \<^verbatim>\<open>try\<close>: open the pickle file and load it.\<close>

definition load_cache :: "env \<Rightarrow> filesystem \<Rightarrow> exn + library" where
  "load_cache e f =
     (case open_rb f cache_path of Inl x \<Rightarrow> Inl x | Inr bs \<Rightarrow> pickle_load e bs)"

text \<open>
  The loop \<^verbatim>\<open>for path in paths\<close>: read each wavfile, take its MFCC feature and store
  it under the base name of the path. The first exception ends the loop.
\<close>

fun extract_all :: "env \<Rightarrow> path list \<Rightarrow> library \<Rightarrow> state \<Rightarrow> (exn + library) \<times> state" where
  "extract_all e [] golden_ptns s = (Inr golden_ptns, s)"
| "extract_all e (p # ps) golden_ptns s =
     (case wav_read e (fs s) p of
        Inl x \<Rightarrow> (Inl x, emit (WavRead p) s)
      | Inr w \<Rightarrow>
          (case mfcc e w of
             Inl x \<Rightarrow> (Inl x, emit (WavRead p) s)
           | Inr m \<Rightarrow> extract_all e ps (dict_setitem golden_ptns (basename p) m)
                        (emit (WavRead p) s)))"

text \<open>
  The handler of \<open>FileNotFoundError\<close>: list the folder, keep the regular files,
  extract their patterns, write the pickle and return the dict that was built. An
  exception raised here leaves the function. The generator of paths tests
  \<^verbatim>\<open>isfile\<close> as the loop advances; the loop changes no file, so the tests are
  made on the files as they are when the folder is listed.
\<close>

definition build_golden_ptns :: "env \<Rightarrow> path \<Rightarrow> state \<Rightarrow> (exn + library) \<times> state" where
  "build_golden_ptns e folderpath s =
     (case listdir (fs s) folderpath of
        Inl x \<Rightarrow> (Inl x, emit (ListDir folderpath) s)
      | Inr names \<Rightarrow>
          (case extract_all e
                  (map (join folderpath)
                     (filter (\<lambda>f. isfile (fs s) (join folderpath f)) names))
                  [] (emit (ListDir folderpath) s) of
             (Inl x, s1) \<Rightarrow> (Inl x, s1)
           | (Inr golden_ptns, s1) \<Rightarrow>
               (case open_wb (fs s1) cache_path of
                  Inl x \<Rightarrow> (Inl x, s1)
                | Inr f1 \<Rightarrow>
                    (Inr golden_ptns,
                     emit (PickleDump cache_path)
                       (s1\<lparr>fs := write_all f1 cache_path (pickle_dumps e golden_ptns)\<rparr>)))))"

definition warn_empty :: string where
  "warn_empty = ''[Warning] Try to load golden_ptns.pickle but is empty, automatically retrying..''"

definition warn_unpickling :: "string \<Rightarrow> string" where
  "warn_unpickling err =
     ''[Warning] Try to load golden_ptns.pickle but '' @ err @ ''Automatically retrying..''"

text \<open>
  \<^verbatim>\<open>continue\<close>: the warning has been printed, and other processes may have changed
  the files by the time the pickle is opened again.
\<close>

definition retry :: "env \<Rightarrow> string \<Rightarrow> state \<Rightarrow> state" where
  "retry e warning s =
     (let s1 = emit (Printed warning) s
      in s1\<lparr>fs := others e (length (trace s1)) (fs s1)\<rparr>)"

text \<open>
  \<^verbatim>\<open>while True\<close> around the \<^verbatim>\<open>try\<close>. The loop has no bound, so the function is
  partial: \<open>None\<close> is a run that never leaves the loop.
\<close>

partial_function (option)
  read_golden_ptns :: "env \<Rightarrow> path \<Rightarrow> state \<Rightarrow> ((exn + library) \<times> state) option"
where
  "read_golden_ptns e folderpath s =
     (case load_cache e (fs s) of
        Inr golden_ptns \<Rightarrow> Some (Inr golden_ptns, emit (PickleLoad cache_path) s)
      | Inl FileNotFoundError \<Rightarrow> Some (build_golden_ptns e folderpath s)
      | Inl EOFError \<Rightarrow> read_golden_ptns e folderpath (retry e warn_empty s)
      | Inl (UnpicklingError err) \<Rightarrow>
          read_golden_ptns e folderpath (retry e (warn_unpickling err) s)
      | Inl x \<Rightarrow> Some (Inl x, s))"

declare read_golden_ptns.simps [code]

section \<open>\<^verbatim>\<open>televoice_identify\<close>\<close>

definition ffmpeg_args :: "path \<Rightarrow> path \<Rightarrow> string list" where
  "ffmpeg_args file_path tmp_filepath =
     [''ffmpeg'', ''-y'', ''-hide_banner'', ''-loglevel'', ''panic'', ''-i'', file_path,
      ''-af'', ''pan=mono|c0=c0'', ''-ar'', ''8000'', ''-sample_fmt'', ''s16'', ''-f'', ''wav'',
      tmp_filepath]"

text \<open>
  \<^verbatim>\<open>subprocess.run(args)\<close>: \<open>FileNotFoundError\<close> when the executable is not found;
  otherwise the tool runs and its exit status is not looked at.
\<close>

definition subprocess_run :: "env \<Rightarrow> string list \<Rightarrow> state \<Rightarrow> exn option \<times> state" where
  "subprocess_run e args s =
     (case ffmpeg e of
        None \<Rightarrow> (Some FileNotFoundError, s)
      | Some tool \<Rightarrow> (None, emit (Run args) (s\<lparr>fs := tool args (fs s)\<rparr>)))"

definition ffmpeg_required :: string where
  "ffmpeg_required = ''[Error] Require ffmpeg to convert the audio in sepcific format.''"

definition tmp_path :: "path \<Rightarrow> path" where
  "tmp_path file_path = join ''temp'' (basename file_path @ ''.tmp'')"

text \<open>
  The last statements: \<^verbatim>\<open>os.remove(tmp_filepath)\<close> with every \<open>OSError\<close> passed over,
  then \<^verbatim>\<open>return result\<close>.
\<close>

definition remove_and_return :: "path \<Rightarrow> Result \<Rightarrow> state \<Rightarrow> (exn + Result) \<times> state" where
  "remove_and_return tmp_filepath result s =
     (case os_remove (fs s) tmp_filepath of
        (None, f) \<Rightarrow> (Inr result, emit (Remove tmp_filepath) (s\<lparr>fs := f\<rparr>))
      | (Some x, f) \<Rightarrow>
          if is_OSError x then (Inr result, emit (Remove tmp_filepath) (s\<lparr>fs := f\<rparr>))
          else (Inl x, emit (Remove tmp_filepath) (s\<lparr>fs := f\<rparr>)))"

text \<open>
  The statements after the conversion: read the converted file, take its MFCC
  feature, compare, build the result, delete the file.
\<close>

definition compare_target ::
  "env \<Rightarrow> path \<Rightarrow> real option \<Rightarrow> int \<Rightarrow> bool \<Rightarrow> real \<Rightarrow> library \<Rightarrow> state
     \<Rightarrow> (exn + Result) \<times> state" where
  "compare_target e file_path threshold scan_step multiproc start_time golden_ptns s =
     (case wav_read e (fs s) (tmp_path file_path) of
        Inl x \<Rightarrow> (Inl x, emit (WavRead (tmp_path file_path)) s)
      | Inr w \<Rightarrow>
          (let s1 = emit (WavRead (tmp_path file_path)) s in
           case mfcc e w of
             Inl x \<Rightarrow> (Inl x, s1)
           | Inr target_mfcc \<Rightarrow>
               (case ptns_cmp e golden_ptns target_mfcc threshold scan_step multiproc of
                  Inl x \<Rightarrow> (Inl x, s1)
                | Inr d \<Rightarrow>
                    remove_and_return (tmp_path file_path)
                      \<lparr>filepath = file_path, diff_indice = d,
                       exe_time = py_time e s1 - start_time\<rparr> s1)))"

definition televoice_identify ::
  "env \<Rightarrow> path \<Rightarrow> real option \<Rightarrow> int \<Rightarrow> bool \<Rightarrow> state \<Rightarrow> ((exn + Result) \<times> state) option"
where
  "televoice_identify e file_path threshold scan_step multiproc s =
     (let start_time = py_time e s in
      case read_golden_ptns e ''golden_wav'' s of
        None \<Rightarrow> None
      | Some (Inl x, s1) \<Rightarrow> Some (Inl x, s1)
      | Some (Inr golden_ptns, s1) \<Rightarrow>
          (case subprocess_run e (ffmpeg_args file_path (tmp_path file_path)) s1 of
             (Some x, s2) \<Rightarrow>
               if x = FileNotFoundError
               then Some (Inl (SystemExit 2), emit (Printed ffmpeg_required) s2)
               else Some (Inl x, s2)
           | (None, s2) \<Rightarrow>
               Some (compare_target e file_path threshold scan_step multiproc start_time
                       golden_ptns s2)))"

section \<open>Reference definitions and sample inputs\<close>

text \<open>
  The first entry, in iteration order, whose score no other entry undercuts: what
  ``the first reference with the minimum score'' means for an insertion-ordered mapping.
\<close>

definition first_min_entry :: "('k, 'v::linorder) dict \<Rightarrow> ('k \<times> 'v) option" where
  "first_min_entry d = find (\<lambda>e. \<forall>e'\<in>set d. snd e \<le> snd e') d"

text \<open>A result in which two references share the minimum score.\<close>

definition tie_example :: Result where
  "tie_example = \<lparr>filepath = ''B_call.wav'',
     diff_indice = [(''C1'', 900), (''B1'', 400), (''A1'', 400), (''B2'', 650)], exe_time = 3\<rparr>"

text \<open>The two score maps of the verdict examples, with their target files.\<close>

definition decisive_example :: Result where
  "decisive_example = \<lparr>filepath = ''A_sample.wav'',
     diff_indice = [(''A'', 500), (''B'', 7000), (''C'', 8000)], exe_time = 0\<rparr>"

definition typical_example :: Result where
  "typical_example = \<lparr>filepath = ''X_sample.wav'',
     diff_indice = [(''A'', 3000), (''B'', 3500), (''C'', 3100)], exe_time = 0\<rparr>"

text \<open>A target whose file name carries the prefix of its best reference.\<close>

definition match_example :: Result where
  "match_example = \<lparr>filepath = ''calls/A1_test.wav'',
     diff_indice = [(''A1.wav'', 100), (''B1.wav'', 9000)], exe_time = 1\<rparr>"

text \<open>
  The state in which the \<open>k\<close>-th consecutive retry of \<^verbatim>\<open>read_golden_ptns\<close> opens the
  pickle again, each retry having printed the warning \<open>w\<close>.
\<close>

fun after_retries :: "env \<Rightarrow> string \<Rightarrow> nat \<Rightarrow> state \<Rightarrow> state" where
  "after_retries e w 0 s = s"
| "after_retries e w (Suc k) s = after_retries e w k (retry e w s)"



text \<open>
  A small world to run the module in. The pickle of the two-reference library is the
  one byte \<open>1\<close>, that of the empty library the byte \<open>2\<close>; loading the byte \<open>3\<close>
  raises \<open>ValueError\<close> (a pickle whose integer literal is damaged), anything else is
  not a pickle. A wavfile is a header byte followed by its samples; the feature of a signal
  without samples cannot be taken. The tool writes a three-byte wavfile to its last
  argument, and no other process touches the files.
\<close>

definition sample_library :: library where
  "sample_library = [(''A1.wav'', [[1, 2]]), (''B1.wav'', [[3, 4]])]"

definition sample_env :: env where
  "sample_env =
     \<lparr>pickle_loads = (\<lambda>bs. if bs = [1] then Inr sample_library
                          else if bs = [2] then Inr []
                          else if bs = [3] then Inl ValueError
                          else Inl (UnpicklingError ''invalid load key'')),
      pickle_dumps = (\<lambda>lib. if lib = [] then [2] else [1]),
      wav_decode = (\<lambda>bs. case bs of [] \<Rightarrow> Inl ValueError
                          | h # samples \<Rightarrow> Inr (8000, map int samples)),
      mfcc = (\<lambda>w. if snd w = [] then Inl ValueError else Inr [map real_of_int (snd w)]),
      ptns_cmp = (\<lambda>lib target threshold scan_step multiproc.
                    Inr (map (\<lambda>kv. (fst kv, 100)) lib)),
      ffmpeg = Some (\<lambda>args f. f\<lparr>files := (files f)(last args \<mapsto> [0, 5, 7])\<rparr>),
      time_at = real,
      others = (\<lambda>n f. f)\<rparr>"

text \<open>The same world with a tool that writes a wavfile without samples.\<close>

definition header_only_env :: env where
  "header_only_env =
     sample_env\<lparr>ffmpeg := Some (\<lambda>args f. f\<lparr>files := (files f)(last args \<mapsto> [0])\<rparr>)\<rparr>"

text \<open>The same world without the tool.\<close>

definition no_tool_env :: env where
  "no_tool_env = sample_env\<lparr>ffmpeg := None\<rparr>"

text \<open>
  The same world with a second process that finishes writing the pickle of the
  library just before the third event.
\<close>

definition writer_env :: env where
  "writer_env =
     sample_env\<lparr>others := (\<lambda>n f. if n = 2
                                then f\<lparr>files := (files f)(''temp/golden_ptns.pickle'' \<mapsto> [1])\<rparr>
                                else f)\<rparr>"

text \<open>
  File systems: with a complete pickle, with a pickle of no bytes, with a pickle
  that does not decode, with no pickle and an empty reference folder, and with
  neither pickle nor reference folder.
\<close>

definition files_with_cache :: "bytes option \<Rightarrow> filesystem" where
  "files_with_cache blob =
     \<lparr>files = [''calls/A1_test.wav'' \<mapsto> [0, 9, 9]](''temp/golden_ptns.pickle'' := blob),
      dirs = [''golden_wav'' \<mapsto> [], ''temp'' \<mapsto> [], ''calls'' \<mapsto> [''A1_test.wav'']],
      denied = (\<lambda>a p. False)\<rparr>"

definition cached_state :: state where
  "cached_state = \<lparr>fs = files_with_cache (Some [1]), trace = []\<rparr>"

definition empty_cache_state :: state where
  "empty_cache_state = \<lparr>fs = files_with_cache (Some []), trace = []\<rparr>"

definition corrupt_cache_state :: state where
  "corrupt_cache_state = \<lparr>fs = files_with_cache (Some [7, 7]), trace = []\<rparr>"

definition fresh_state :: state where
  "fresh_state = \<lparr>fs = files_with_cache None, trace = []\<rparr>"

definition bare_state :: state where
  "bare_state =
     \<lparr>fs = \<lparr>files = [''calls/A1_test.wav'' \<mapsto> [0, 9, 9]],
             dirs = [''calls'' \<mapsto> [''A1_test.wav'']],
             denied = (\<lambda>a p. False)\<rparr>,
      trace = []\<rparr>"

text \<open>A pickle whose loading raises \<open>ValueError\<close>.\<close>

definition garbled_cache_state :: state where
  "garbled_cache_state = \<lparr>fs = files_with_cache (Some [3]), trace = []\<rparr>"

text \<open>An empty reference folder, no pickle and no folder to write the pickle to.\<close>

definition no_temp_state :: state where
  "no_temp_state =
     \<lparr>fs = \<lparr>files = Map.empty, dirs = [''golden_wav'' \<mapsto> []],
             denied = (\<lambda>a p. False)\<rparr>,
      trace = []\<rparr>"

section \<open>The builtins \<^verbatim>\<open>min\<close> and \<^verbatim>\<open>max\<close>\<close>

lemma min_loop_split:
  "\<exists>pre post. b # xs = pre @ min_loop f b xs # post
      \<and> (\<forall>y\<in>set pre. f (min_loop f b xs) < f y)
      \<and> (\<forall>y\<in>set post. f (min_loop f b xs) \<le> f y)"
proof (induction xs arbitrary: b)
  case Nil
  have "[b] = [] @ min_loop f b [] # []" by simp
  then show ?case by fastforce
next
  case (Cons x xs)
  show ?case
  proof (cases "f x < f b")
    case True
    from Cons.IH [of x] obtain pre post where
      d: "x # xs = pre @ min_loop f x xs # post"
      and lt: "\<forall>y\<in>set pre. f (min_loop f x xs) < f y"
      and le: "\<forall>y\<in>set post. f (min_loop f x xs) \<le> f y"
      by blast
    have "f (min_loop f x xs) \<le> f x"
    proof (cases pre)
      case Nil
      from d have "x # xs = min_loop f x xs # post" unfolding Nil append_Nil .
      then have e: "min_loop f x xs = x" by (metis list.inject)
      show ?thesis unfolding e by simp
    next
      case (Cons p ps)
      with d have "x \<in> set pre" by simp
      with lt show ?thesis by fastforce
    qed
    with True have "f (min_loop f x xs) < f b" by simp
    with lt have lt': "\<forall>y\<in>set (b # pre). f (min_loop f x xs) < f y" by simp
    from d have "b # x # xs = (b # pre) @ min_loop f x xs # post" by simp
    with lt' le True show ?thesis
      by (metis min_loop.simps(2))
  next
    case False
    from Cons.IH [of b] obtain pre post where
      d: "b # xs = pre @ min_loop f b xs # post"
      and lt: "\<forall>y\<in>set pre. f (min_loop f b xs) < f y"
      and le: "\<forall>y\<in>set post. f (min_loop f b xs) \<le> f y"
      by blast
    show ?thesis
    proof (cases pre)
      case Nil
      from d have "b # xs = min_loop f b xs # post" unfolding Nil append_Nil .
      then have m: "min_loop f b xs = b" and p: "post = xs" by (metis list.inject)+
      have "b # x # xs = [] @ b # (x # xs)" by simp
      moreover have "\<forall>y\<in>set (x # xs). f b \<le> f y" using False le m p by auto
      ultimately show ?thesis using False m
        by (metis empty_iff list.set(1) min_loop.simps(2))
    next
      case (Cons p ps)
      from d have "b # xs = p # (ps @ min_loop f b xs # post)" unfolding Cons append_Cons .
      then have pb: "p = b" and xs: "xs = ps @ min_loop f b xs # post" by (metis list.inject)+
      from lt Cons pb have "f (min_loop f b xs) < f b" by simp
      with False have "f (min_loop f b xs) < f x" by simp
      with lt Cons pb have lt': "\<forall>y\<in>set (b # x # ps). f (min_loop f b xs) < f y" by simp
      from xs have "b # x # xs = (b # x # ps) @ min_loop f b xs # post" by simp
      with lt' le False show ?thesis
        by (metis min_loop.simps(2))
    qed
  qed
qed

lemma min_loop_mem: "min_loop f b xs \<in> set (b # xs)"
  by (induction xs arbitrary: b) auto

lemma min_loop_le: "y \<in> set (b # xs) \<Longrightarrow> f (min_loop f b xs) \<le> f y"
  using min_loop_split [where b = b and xs = xs and f = f]
  by (metis Un_iff insert_iff less_imp_le list.set(2) order_refl set_append)

lemma max_loop_mem: "max_loop f b xs \<in> set (b # xs)"
  by (induction xs arbitrary: b) auto

lemma max_loop_ge: "y \<in> set (b # xs) \<Longrightarrow> f y \<le> f (max_loop f b xs)"
proof (induction xs arbitrary: b y)
  case Nil
  then show ?case by simp
next
  case (Cons x xs)
  show ?case
  proof (cases "f b < f x")
    case True
    have "f x \<le> f (max_loop f x xs)" using Cons.IH [of x x] by simp
    with Cons.IH [of y x] Cons.prems True show ?thesis by fastforce
  next
    case False
    have "f b \<le> f (max_loop f b xs)" using Cons.IH [of b b] by simp
    with Cons.IH [of y b] Cons.prems False show ?thesis by fastforce
  qed
qed

lemma min_loop_keys:
  "\<forall>e\<in>set (b # xs). g (fst e) = Some (snd e) \<Longrightarrow>
     min_loop g (fst b) (map fst xs) = fst (min_loop snd b xs)"
  by (induction xs arbitrary: b) auto

lemma min_loop_values: "min_loop (\<lambda>v. v) (snd b) (map snd xs) = snd (min_loop snd b xs)"
  by (induction xs arbitrary: b) auto

lemma max_loop_values: "max_loop (\<lambda>v. v) (snd b) (map snd xs) = snd (max_loop snd b xs)"
  by (induction xs arbitrary: b) auto

lemma matched_entry:
  assumes "dict_ok (diff_indice r)" and "diff_indice r = b # xs"
  shows "matched_golden_ptn r = Inr (min_loop snd b xs)"
proof -
  from assms have "\<forall>e\<in>set (b # xs). dict_get (b # xs) (fst e) = Some (snd e)"
    by (metis dict_get_def dict_ok_def map_of_eq_Some_iff prod.collapse)
  then have "min_loop (dict_get (b # xs)) (fst b) (map fst xs) = fst (min_loop snd b xs)"
    by (rule min_loop_keys)
  then show ?thesis
    using assms(2) 
    by (simp add: matched_golden_ptn_def py_min_def dict_keys_def dict_values_def
        min_loop_values)
qed

lemma matched_score:
  assumes "diff_indice r = b # xs"
  shows "\<exists>k. matched_golden_ptn r = Inr (k, snd (min_loop snd b xs))"
  using assms
  by (simp add: matched_golden_ptn_def py_min_def dict_keys_def dict_values_def
        dict_get_def min_loop_values)

lemma mrd_entry:
  assumes "diff_indice r = b # xs"
  shows "mrd r = Inr (snd (max_loop snd b xs) - snd (min_loop snd b xs))"
  using assms
  by (simp add: mrd_def py_min_def py_max_def dict_values_def min_loop_values max_loop_values)

lemma values_Min:
  assumes "diff_indice r = b # xs"
  shows "snd (min_loop snd b xs) = Min (set (dict_values (diff_indice r)))"
proof (rule sym, rule Min_eqI)
  have V: "set (dict_values (diff_indice r)) = snd ` set (b # xs)"
    by (simp add: assms dict_values_def)
  show "finite (set (dict_values (diff_indice r)))" by simp
  show "\<And>y. y \<in> set (dict_values (diff_indice r)) \<Longrightarrow> snd (min_loop snd b xs) \<le> y"
    unfolding V using min_loop_le [where f = snd] by blast
  show "snd (min_loop snd b xs) \<in> set (dict_values (diff_indice r))"
    unfolding V using min_loop_mem [where f = snd] by blast
qed

lemma values_Max:
  assumes "diff_indice r = b # xs"
  shows "snd (max_loop snd b xs) = Max (set (dict_values (diff_indice r)))"
proof (rule sym, rule Max_eqI)
  have V: "set (dict_values (diff_indice r)) = snd ` set (b # xs)"
    by (simp add: assms dict_values_def)
  show "finite (set (dict_values (diff_indice r)))" by simp
  show "\<And>y. y \<in> set (dict_values (diff_indice r)) \<Longrightarrow> y \<le> snd (max_loop snd b xs)"
    unfolding V using max_loop_ge [where f = snd] by blast
  show "snd (max_loop snd b xs) \<in> set (dict_values (diff_indice r))"
    unfolding V using max_loop_mem [where f = snd] by blast
qed

lemma find_split:
  assumes "d = pre @ m # post" and "P m" and "\<forall>y\<in>set pre. \<not> P y"
  shows "find P d = Some m"
  using assms by (induction pre arbitrary: d) auto

lemma min_loop_first:
  "first_min_entry (b # xs) = Some (min_loop snd b xs)"
proof -
  obtain pre post where
    d: "b # xs = pre @ min_loop snd b xs # post"
    and lt: "\<forall>y\<in>set pre. snd (min_loop snd b xs) < snd y"
    using min_loop_split [where b = b and xs = xs and f = snd] by blast
  have P: "\<forall>e'\<in>set (b # xs). snd (min_loop snd b xs) \<le> snd e'"
    using min_loop_le [where f = snd] by blast
  have N: "\<forall>y\<in>set pre. \<not> (\<forall>e'\<in>set (b # xs). snd y \<le> snd e')"
  proof
    fix y assume "y \<in> set pre"
    with lt have "snd (min_loop snd b xs) < snd y" by blast
    moreover have "min_loop snd b xs \<in> set (b # xs)" by (rule min_loop_mem)
    ultimately show "\<not> (\<forall>e'\<in>set (b # xs). snd y \<le> snd e')" by (meson not_le)
  qed
  show ?thesis
    unfolding first_min_entry_def
    by (rule find_split [OF d]) (use P N in blast)+
qed


lemma upper_str_bool: "upper (str_bool b) = (if b then ''TRUE'' else ''FALSE'')"
  by (simp add: upper_def str_bool_def upper_char_def)

lemma result_type_cases:
  assumes "mrd r = Inr m" and "matched_golden_ptn r = Inr (k, s)"
  shows "result_type r =
           (if m < 2000 \<and> s > 2000 then Inr ''TYPICAL''
            else Inr (upper (str_bool (take 2 (filename r) = take 2 k))))"
  using assms by (simp add: result_type_def)


section \<open>Claims about the classification of a result\<close>

text \<open>
  Claim C6. For a non-empty score map (a dict, so with distinct keys) the matched
  reference is a pair \<open>(k, s)\<close> with \<open>s\<close> the score stored under \<open>k\<close>; \<open>s\<close> is the
  minimum of the scores, below or equal to every score of the map; and the margin is
  the maximum of the scores minus their minimum, which is not negative.
\<close>

theorem matched_is_minimum:
  assumes "diff_indice r \<noteq> []" and "dict_ok (diff_indice r)"
  shows "\<exists>k s m. matched_golden_ptn r = Inr (k, s)
           \<and> dict_get (diff_indice r) k = Some s
           \<and> s = Min (set (dict_values (diff_indice r)))
           \<and> (\<forall>v\<in>set (dict_values (diff_indice r)). s \<le> v)
           \<and> mrd r = Inr m
           \<and> m = Max (set (dict_values (diff_indice r))) - Min (set (dict_values (diff_indice r)))
           \<and> 0 \<le> m"
proof -
  from assms(1) obtain b xs where d: "diff_indice r = b # xs" by (cases "diff_indice r") auto
  let ?m = "min_loop snd b xs"
  let ?lo = "Min (set (dict_values (diff_indice r)))"
  let ?hi = "Max (set (dict_values (diff_indice r)))"
  have lo: "snd ?m = ?lo" by (rule values_Min [OF d])
  have hi: "snd (max_loop snd b xs) = ?hi" by (rule values_Max [OF d])
  have mem: "?m \<in> set (diff_indice r)" unfolding d by (rule min_loop_mem)
  have 1: "matched_golden_ptn r = Inr (fst ?m, ?lo)"
    using matched_entry [OF assms(2) d] lo by (metis prod.collapse)
  have "dict_get (diff_indice r) (fst ?m) = Some (snd ?m)"
    using mem assms(2) by (simp add: dict_get_def dict_ok_def)
  then have 2: "dict_get (diff_indice r) (fst ?m) = Some ?lo"
    unfolding lo .
  have 3: "\<forall>v\<in>set (dict_values (diff_indice r)). ?lo \<le> v"
    by simp
  have 4: "mrd r = Inr (?hi - ?lo)"
    using mrd_entry [OF d] lo hi by simp
  have "snd ?m \<le> snd (max_loop snd b xs)"
    using max_loop_ge [where f = snd, OF min_loop_mem] .
  then have 5: "0 \<le> ?hi - ?lo" using lo hi by simp
  from 1 2 3 4 5 show ?thesis by blast
qed

theorem matched_is_minimum_witness:
  "diff_indice tie_example \<noteq> [] \<and> dict_ok (diff_indice tie_example)
   \<and> matched_golden_ptn tie_example = Inr (''B1'', 400)
   \<and> mrd tie_example = Inr (900 - 400)
   \<and> (\<exists>k s m. matched_golden_ptn tie_example = Inr (k, s)
           \<and> dict_get (diff_indice tie_example) k = Some s
           \<and> s = Min (set (dict_values (diff_indice tie_example)))
           \<and> (\<forall>v\<in>set (dict_values (diff_indice tie_example)). s \<le> v)
           \<and> mrd tie_example = Inr m
           \<and> m = Max (set (dict_values (diff_indice tie_example)))
                 - Min (set (dict_values (diff_indice tie_example)))
           \<and> 0 \<le> m)"
proof -
  have ne: "diff_indice tie_example \<noteq> []" by (simp add: tie_example_def)
  have ok: "dict_ok (diff_indice tie_example)"
    by (simp add: tie_example_def dict_ok_def)
  have m: "matched_golden_ptn tie_example = Inr (''B1'', 400)"
    by (simp add: tie_example_def matched_golden_ptn_def py_min_def dict_keys_def
        dict_values_def dict_get_def)
  have d: "mrd tie_example = Inr (900 - 400)"
    by (simp add: tie_example_def mrd_def py_min_def py_max_def dict_values_def)
  from matched_is_minimum [OF ne ok] ne ok m d show ?thesis by blast
qed

text \<open>
  Claim C10. The matched reference is the first entry, in the iteration order of the
  mapping, among those that carry the minimum score (on an empty mapping both sides
  fail with \<open>ValueError\<close>); and it is a function of the mapping alone, so two
  results over the same mapping give the same matched reference.
\<close>

theorem matched_is_first_minimum:
  assumes "dict_ok (diff_indice r)"
  shows "matched_golden_ptn r =
           (case first_min_entry (diff_indice r) of None \<Rightarrow> Inl ValueError | Some e \<Rightarrow> Inr e)
         \<and> (\<forall>r'. diff_indice r' = diff_indice r \<longrightarrow> matched_golden_ptn r' = matched_golden_ptn r)"
proof
  show "matched_golden_ptn r =
           (case first_min_entry (diff_indice r) of None \<Rightarrow> Inl ValueError | Some e \<Rightarrow> Inr e)"
  proof (cases "diff_indice r")
    case Nil
    then show ?thesis
      by (simp add: matched_golden_ptn_def py_min_def dict_keys_def first_min_entry_def)
  next
    case (Cons b xs)
    show ?thesis
      using matched_entry [OF assms Cons] min_loop_first [of b xs] Cons by simp
  qed
  show "\<forall>r'. diff_indice r' = diff_indice r \<longrightarrow> matched_golden_ptn r' = matched_golden_ptn r"
  proof (intro allI impI)
    fix r' :: Result
    assume e: "diff_indice r' = diff_indice r"
    show "matched_golden_ptn r' = matched_golden_ptn r"
      unfolding matched_golden_ptn_def e by (rule refl)
  qed
qed

theorem matched_is_first_minimum_witness:
  "dict_ok (diff_indice tie_example)
   \<and> first_min_entry (diff_indice tie_example) = Some (''B1'', 400)
   \<and> matched_golden_ptn tie_example = Inr (''B1'', 400)"
proof -
  have ok: "dict_ok (diff_indice tie_example)"
    by (simp add: tie_example_def dict_ok_def)
  have f: "first_min_entry (diff_indice tie_example) = Some (''B1'', 400)"
    by (simp add: tie_example_def first_min_entry_def)
  from matched_is_first_minimum [OF ok] f ok show ?thesis by simp
qed

text \<open>
  Claim C5. For a non-empty score map the margin \<open>m\<close> (maximum minus minimum) and
  the matched score \<open>s\<close> (the minimum) are defined, and the verdict is \<open>TYPICAL\<close> exactly
  when \<open>m < 2000\<close> and \<open>s > 2000\<close>, whatever the file name: the test comes before the
  prefix comparison. The map \<open>{A: 3000, B: 3500, C: 3100}\<close> gives \<open>TYPICAL\<close> for every
  target path.
\<close>

theorem typical_iff:
  assumes "diff_indice r \<noteq> []"
  shows "(\<exists>m k s. mrd r = Inr m \<and> matched_golden_ptn r = Inr (k, s)
            \<and> s = Min (set (dict_values (diff_indice r)))
            \<and> m = Max (set (dict_values (diff_indice r))) - Min (set (dict_values (diff_indice r)))
            \<and> (result_type r = Inr ''TYPICAL'') = (m < 2000 \<and> s > 2000))
         \<and> (\<forall>fp t. result_type \<lparr>filepath = fp,
                 diff_indice = [(''A'', 3000), (''B'', 3500), (''C'', 3100)],
                 exe_time = t\<rparr> = Inr ''TYPICAL'')"
proof
  from assms obtain b xs where d: "diff_indice r = b # xs" by (cases "diff_indice r") auto
  let ?V = "set (dict_values (diff_indice r))"
  let ?lo = "snd (min_loop snd b xs)" and ?hi = "snd (max_loop snd b xs)"
  have V: "?V = snd ` set (b # xs)" by (simp add: d dict_values_def)
  from matched_score [OF d] obtain k where mk: "matched_golden_ptn r = Inr (k, ?lo)" ..
  have mm: "mrd r = Inr (?hi - ?lo)" by (rule mrd_entry [OF d])
  have lo: "?lo = Min ?V"
  proof (rule sym, rule Min_eqI)
    show "finite ?V" by simp
    show "\<And>y. y \<in> ?V \<Longrightarrow> ?lo \<le> y" unfolding V using min_loop_le [where f = snd] by blast
    show "?lo \<in> ?V" unfolding V using min_loop_mem [where f = snd] by blast
  qed
  have hi: "?hi = Max ?V"
  proof (rule sym, rule Max_eqI)
    show "finite ?V" by simp
    show "\<And>y. y \<in> ?V \<Longrightarrow> y \<le> ?hi" unfolding V using max_loop_ge [where f = snd] by blast
    show "?hi \<in> ?V" unfolding V using max_loop_mem [where f = snd] by blast
  qed
  have "(result_type r = Inr ''TYPICAL'') = (?hi - ?lo < 2000 \<and> ?lo > 2000)"
    using result_type_cases [OF mm mk] by (simp add: upper_str_bool)
  with mk mm lo hi
  show "\<exists>m k s. mrd r = Inr m \<and> matched_golden_ptn r = Inr (k, s)
            \<and> s = Min ?V \<and> m = Max ?V - Min ?V
            \<and> (result_type r = Inr ''TYPICAL'') = (m < 2000 \<and> s > 2000)"
    by metis
  show "\<forall>fp t. result_type \<lparr>filepath = fp,
                 diff_indice = [(''A'', 3000), (''B'', 3500), (''C'', 3100)],
                 exe_time = t\<rparr> = Inr ''TYPICAL''"
    by (simp add: result_type_def mrd_def matched_golden_ptn_def py_min_def py_max_def
        dict_values_def dict_keys_def dict_get_def)
qed

theorem typical_iff_witness:
  "diff_indice typical_example \<noteq> []
   \<and> mrd typical_example = Inr 500
   \<and> matched_golden_ptn typical_example = Inr (''A'', 3000)
   \<and> result_type typical_example = Inr ''TYPICAL''"
proof -
  have ne: "diff_indice typical_example \<noteq> []" by (simp add: typical_example_def)
  have d: "mrd typical_example = Inr 500"
    by (simp add: typical_example_def mrd_def py_min_def py_max_def dict_values_def)
  have m: "matched_golden_ptn typical_example = Inr (''A'', 3000)"
    by (simp add: typical_example_def matched_golden_ptn_def py_min_def dict_keys_def
        dict_values_def dict_get_def)
  from typical_iff [OF ne] d m have "result_type typical_example = Inr ''TYPICAL''"
    by auto
  with ne d m show ?thesis by simp
qed

text \<open>
  Claim C1, as amended. For a non-empty score map that does not meet the \<open>TYPICAL\<close>
  test, the verdict is the string \<open>TRUE\<close> when the first two characters of the target's
  file name equal the first two characters of the matched reference's identifier, and
  the string \<open>FALSE\<close> otherwise (the upper-cased text of the Python boolean). For the
  map \<open>{A: 500, B: 7000, C: 8000}\<close> and the target \<open>A_sample.wav\<close> the verdict is
  \<open>FALSE\<close>: the prefixes are \<open>A_\<close> and \<open>A\<close>.
\<close>

theorem prefix_verdict:
  assumes "diff_indice r \<noteq> []"
  shows "(\<exists>m k s. mrd r = Inr m \<and> matched_golden_ptn r = Inr (k, s)
            \<and> (\<not> (m < 2000 \<and> s > 2000) \<longrightarrow>
                 result_type r =
                   Inr (if take 2 (filename r) = take 2 k then ''TRUE'' else ''FALSE'')))
         \<and> result_type \<lparr>filepath = ''A_sample.wav'',
               diff_indice = [(''A'', 500), (''B'', 7000), (''C'', 8000)],
               exe_time = t\<rparr> = Inr ''FALSE''"
proof
  from assms obtain b xs where d: "diff_indice r = b # xs" by (cases "diff_indice r") auto
  from matched_score [OF d] obtain k where
    mk: "matched_golden_ptn r = Inr (k, snd (min_loop snd b xs))" ..
  have mm: "mrd r = Inr (snd (max_loop snd b xs) - snd (min_loop snd b xs))"
    by (rule mrd_entry [OF d])
  from result_type_cases [OF mm mk] mk mm
  show "\<exists>m k s. mrd r = Inr m \<and> matched_golden_ptn r = Inr (k, s)
            \<and> (\<not> (m < 2000 \<and> s > 2000) \<longrightarrow>
                 result_type r =
                   Inr (if take 2 (filename r) = take 2 k then ''TRUE'' else ''FALSE''))"
    by (simp add: upper_str_bool)
  show "result_type \<lparr>filepath = ''A_sample.wav'',
               diff_indice = [(''A'', 500), (''B'', 7000), (''C'', 8000)],
               exe_time = t\<rparr> = Inr ''FALSE''"
    by (simp add: result_type_def mrd_def matched_golden_ptn_def py_min_def py_max_def
        dict_values_def dict_keys_def dict_get_def filename_def basename_def upper_str_bool)
qed

theorem prefix_verdict_witness:
  "diff_indice match_example \<noteq> []
   \<and> mrd match_example = Inr 8900
   \<and> matched_golden_ptn match_example = Inr (''A1.wav'', 100)
   \<and> \<not> ((8900::real) < 2000 \<and> (100::real) > 2000)
   \<and> result_type match_example = Inr ''TRUE''"
proof -
  have ne: "diff_indice match_example \<noteq> []" by (simp add: match_example_def)
  have d: "mrd match_example = Inr 8900"
    by (simp add: match_example_def mrd_def py_min_def py_max_def dict_values_def)
  have m: "matched_golden_ptn match_example = Inr (''A1.wav'', 100)"
    by (simp add: match_example_def matched_golden_ptn_def py_min_def dict_keys_def
        dict_values_def dict_get_def)
  have f: "filename match_example = ''A1_test.wav''"
    by (simp add: match_example_def filename_def basename_def)
  from prefix_verdict [OF ne] d m f have "result_type match_example = Inr ''TRUE''"
    by auto
  with ne d m show ?thesis by simp
qed

text \<open>
  The claim as stated fails at its own example: the verdict for the map
  \<open>{A: 500, B: 7000, C: 8000}\<close> and the target \<open>A_sample.wav\<close> is not the string
  \<open>MATCH\<close>.
\<close>

theorem prefix_verdict_counterexample:
  "result_type decisive_example = Inr ''FALSE''
   \<and> result_type decisive_example \<noteq> Inr ''MATCH''"
  by (simp add: decisive_example_def result_type_def mrd_def matched_golden_ptn_def
      py_min_def py_max_def dict_values_def dict_keys_def dict_get_def filename_def
      basename_def upper_str_bool)

section \<open>Steps of the retry loop and of the clean-up\<close>

lemma cache_path_eq: "cache_path = ''temp/golden_ptns.pickle''"
  by (simp add: cache_path_def join_def)

lemma dirname_cache_path: "dirname cache_path = ''temp''"
  by (simp add: dirname_def cache_path_def join_def Let_def)

lemma load_cache_empty: "open_rb f cache_path = Inr [] \<Longrightarrow> load_cache e f = Inl EOFError"
  by (simp add: load_cache_def pickle_load_def)

lemma load_cache_valid:
  "open_rb f cache_path = Inr bs \<Longrightarrow> bs \<noteq> [] \<Longrightarrow> pickle_loads e bs = Inr lib
     \<Longrightarrow> load_cache e f = Inr lib"
  by (simp add: load_cache_def pickle_load_def)


lemma read_hit:
  "load_cache e (fs s) = Inr lib \<Longrightarrow>
     read_golden_ptns e folderpath s = Some (Inr lib, emit (PickleLoad cache_path) s)"
  by (subst read_golden_ptns.simps) simp

lemma read_absent:
  "load_cache e (fs s) = Inl FileNotFoundError \<Longrightarrow>
     read_golden_ptns e folderpath s = Some (build_golden_ptns e folderpath s)"
  by (subst read_golden_ptns.simps) simp

lemma read_eof:
  "load_cache e (fs s) = Inl EOFError \<Longrightarrow>
     read_golden_ptns e folderpath s = read_golden_ptns e folderpath (retry e warn_empty s)"
  by (subst read_golden_ptns.simps) simp



lemma fs_retry: "fs (retry e w s) = others e (Suc (length (trace s))) (fs s)"
  by (simp add: retry_def emit_def Let_def)

lemma read_after_retries:
  "\<forall>i<k. load_cache e (fs (after_retries e warn_empty i s)) = Inl EOFError \<Longrightarrow>
     read_golden_ptns e folderpath s =
       read_golden_ptns e folderpath (after_retries e warn_empty k s)"
proof (induction k arbitrary: s)
  case 0
  show ?case by simp
next
  case (Suc k)
  from Suc.prems have "load_cache e (fs (after_retries e warn_empty 0 s)) = Inl EOFError"
    by blast
  then have 0: "load_cache e (fs s) = Inl EOFError" by simp
  have "\<forall>i<k. load_cache e (fs (after_retries e warn_empty i (retry e warn_empty s)))
          = Inl EOFError"
  proof (intro allI impI)
    fix i assume "i < k"
    then have "Suc i < Suc k" by simp
    with Suc.prems have "load_cache e (fs (after_retries e warn_empty (Suc i) s)) = Inl EOFError"
      by blast
    then show "load_cache e (fs (after_retries e warn_empty i (retry e warn_empty s)))
          = Inl EOFError" by simp
  qed
  from Suc.IH [OF this] read_eof [OF 0] show ?case by simp
qed

lemma read_returns_not_stuck:
  assumes r: "read_golden_ptns e folderpath s = Some y"
  shows "\<not> (\<forall>i. load_cache e (fs (after_retries e warn_empty i s)) = Inl EOFError)"
proof (rule read_golden_ptns.raw_induct
    [where P = "\<lambda>e folderpath s y.
       \<not> (\<forall>i. load_cache e (fs (after_retries e warn_empty i s)) = Inl EOFError)", OF _ r],
    goal_cases)
  case (1 rgp e folderpath s y)
  show ?case
  proof
    assume all: "\<forall>i. load_cache e (fs (after_retries e warn_empty i s)) = Inl EOFError"
    then have "load_cache e (fs (after_retries e warn_empty 0 s)) = Inl EOFError" by blast
    then have 0: "load_cache e (fs s) = Inl EOFError" by simp
    with 1(2) have "rgp e folderpath (retry e warn_empty s) = Some y" by simp
    then have "\<not> (\<forall>i. load_cache e (fs (after_retries e warn_empty i (retry e warn_empty s)))
                   = Inl EOFError)" by (rule 1(1))
    moreover have "\<forall>i. load_cache e (fs (after_retries e warn_empty i (retry e warn_empty s)))
                   = Inl EOFError"
    proof
      fix i
      from all have "load_cache e (fs (after_retries e warn_empty (Suc i) s)) = Inl EOFError"
        by blast
      then show "load_cache e (fs (after_retries e warn_empty i (retry e warn_empty s)))
                   = Inl EOFError" by simp
    qed
    ultimately show False by blast
  qed
qed

lemma read_never_returns:
  assumes "\<forall>i. load_cache e (fs (after_retries e warn_empty i s)) = Inl EOFError"
  shows "read_golden_ptns e folderpath s = None"
proof (cases "read_golden_ptns e folderpath s")
  case None
  then show ?thesis .
next
  case (Some y)
  from read_returns_not_stuck [OF Some] assms show ?thesis by blast
qed






lemma fs_after_retries_quiet:
  "others e = (\<lambda>n f. f) \<Longrightarrow> fs (after_retries e w i s) = fs s"
  by (induction i arbitrary: s) (simp_all add: fs_retry)


lemma os_remove_raises: "os_remove f p = (Some x, f') \<Longrightarrow> is_OSError x"
  by (auto simp: os_remove_def split: option.splits if_splits)

lemma os_remove_gone:
  "os_remove f p = (r, f') \<Longrightarrow> files f' p = None \<or> denied f' Deleting p"
  by (auto simp: os_remove_def split: option.splits if_splits)

lemma remove_and_return_gone:
  "remove_and_return p r s = (Inr r', s') \<Longrightarrow> files (fs s') p = None \<or> denied (fs s') Deleting p"
  using os_remove_gone [of "fs s" p]
  by (auto simp: remove_and_return_def emit_def split: prod.splits option.splits if_splits)

lemma remove_and_return_no_raise: "remove_and_return p r s \<noteq> (Inl x, s')"
  using os_remove_raises [of "fs s" p]
  by (auto simp: remove_and_return_def split: prod.splits option.splits if_splits)

lemma compare_target_gone:
  "compare_target e fp th st mp t0 lib s = (Inr r, s') \<Longrightarrow>
     files (fs s') (tmp_path fp) = None \<or> denied (fs s') Deleting (tmp_path fp)"
  by (auto simp: compare_target_def Let_def split: sum.splits dest: remove_and_return_gone)

lemma compare_target_raise_keeps:
  "compare_target e fp th st mp t0 lib s = (Inl x, s') \<Longrightarrow> fs s' = fs s"
  by (auto simp: compare_target_def Let_def emit_def remove_and_return_no_raise split: sum.splits)

lemmas world_defs =
  sample_env_def header_only_env_def no_tool_env_def writer_env_def files_with_cache_def
  cached_state_def empty_cache_state_def corrupt_cache_state_def fresh_state_def bare_state_def
  garbled_cache_state_def no_temp_state_def sample_library_def

lemmas step_defs =
  open_rb_def open_wb_def write_all_def listdir_def isfile_def os_remove_def emit_def
  py_time_def pickle_load_def wav_read_def load_cache_def build_golden_ptns_def retry_def
  subprocess_run_def ffmpeg_args_def tmp_path_def remove_and_return_def compare_target_def
  televoice_identify_def cache_path_eq dirname_cache_path [unfolded cache_path_eq]
  join_def basename_def Let_def

lemma cached_read:
  "pickle_loads e [1] = Inr sample_library \<Longrightarrow>
     read_golden_ptns e folderpath cached_state =
       Some (Inr sample_library, emit (PickleLoad cache_path) cached_state)"
  by (rule read_hit) (simp add: load_cache_def open_rb_def pickle_load_def cache_path_eq
      cached_state_def files_with_cache_def)


lemma bare_read:
  "read_golden_ptns e ''golden_wav'' bare_state =
     Some (build_golden_ptns e ''golden_wav'' bare_state)"
  by (rule read_absent) (simp add: load_cache_def open_rb_def cache_path_eq bare_state_def)

section \<open>Claims about the cache of golden patterns\<close>

text \<open>
  Claim C8. With a pickle on disk that can be read and decodes to a library, two
  calls in a row both return that library; neither changes a file, and each adds to
  the trace the load of the pickle and nothing else: no listing of the folder, no
  wavfile read, no pickle written.
\<close>

theorem cache_hit_idempotent:
  assumes "open_rb (fs s) cache_path = Inr bs" and "bs \<noteq> []" and "pickle_loads e bs = Inr lib"
  shows "\<exists>s1 s2. read_golden_ptns e folderpath s = Some (Inr lib, s1)
           \<and> read_golden_ptns e folderpath s1 = Some (Inr lib, s2)
           \<and> fs s1 = fs s \<and> fs s2 = fs s
           \<and> trace s1 = trace s @ [PickleLoad cache_path]
           \<and> trace s2 = trace s1 @ [PickleLoad cache_path]"
proof -
  let ?s1 = "emit (PickleLoad cache_path) s"
  let ?s2 = "emit (PickleLoad cache_path) ?s1"
  have f1: "fs ?s1 = fs s" by (simp add: emit_def)
  have l0: "load_cache e (fs s) = Inr lib" by (rule load_cache_valid [OF assms])
  then have l1: "load_cache e (fs ?s1) = Inr lib" by (simp add: f1)
  have "read_golden_ptns e folderpath s = Some (Inr lib, ?s1)" by (rule read_hit [OF l0])
  moreover have "read_golden_ptns e folderpath ?s1 = Some (Inr lib, ?s2)" by (rule read_hit [OF l1])
  moreover have "fs ?s2 = fs s" by (simp add: emit_def)
  moreover have "trace ?s1 = trace s @ [PickleLoad cache_path]" by (simp add: emit_def)
  moreover have "trace ?s2 = trace ?s1 @ [PickleLoad cache_path]" by (simp add: emit_def)
  ultimately show ?thesis using f1 by blast
qed

theorem cache_hit_idempotent_witness:
  "open_rb (fs cached_state) cache_path = Inr [1]
   \<and> pickle_loads sample_env [1] = Inr sample_library
   \<and> (\<exists>s1 s2. read_golden_ptns sample_env ''golden_wav'' cached_state = Some (Inr sample_library, s1)
           \<and> read_golden_ptns sample_env ''golden_wav'' s1 = Some (Inr sample_library, s2)
           \<and> fs s1 = fs cached_state \<and> fs s2 = fs cached_state
           \<and> trace s1 = [PickleLoad cache_path]
           \<and> trace s2 = [PickleLoad cache_path, PickleLoad cache_path])"
proof -
  have a: "open_rb (fs cached_state) cache_path = Inr [1]"
    by (simp add: open_rb_def cache_path_eq cached_state_def files_with_cache_def)
  have b: "[1::nat] \<noteq> []" by simp
  have c: "pickle_loads sample_env [1] = Inr sample_library"
    by (simp add: sample_env_def)
  have t: "trace cached_state = []" by (simp add: cached_state_def)
  from cache_hit_idempotent [OF a b c, where folderpath = "''golden_wav''"] a c t show ?thesis
    by auto
qed




text \<open>
  Claim C3, as amended. When the pickle exists with no content, the function
  prints a warning and retries. It returns a library as soon as a retry finds a
  pickle that decodes, put there by another process, the pickle having been empty
  until then; as long as every retry finds the pickle empty it neither raises nor
  returns.
\<close>

theorem empty_cache_waits:
  assumes "open_rb (fs s) cache_path = Inr []"
  shows "((\<forall>i<k. open_rb (fs (after_retries e warn_empty i s)) cache_path = Inr [])
            \<and> open_rb (fs (after_retries e warn_empty k s)) cache_path = Inr bs
            \<and> bs \<noteq> [] \<and> pickle_loads e bs = Inr lib
          \<longrightarrow> read_golden_ptns e folderpath s =
                Some (Inr lib, emit (PickleLoad cache_path) (after_retries e warn_empty k s)))
       \<and> ((\<forall>i. open_rb (fs (after_retries e warn_empty i s)) cache_path = Inr [])
          \<longrightarrow> read_golden_ptns e folderpath s = None)"
proof (intro conjI impI)
  assume h: "(\<forall>i<k. open_rb (fs (after_retries e warn_empty i s)) cache_path = Inr [])
            \<and> open_rb (fs (after_retries e warn_empty k s)) cache_path = Inr bs
            \<and> bs \<noteq> [] \<and> pickle_loads e bs = Inr lib"
  then have "\<forall>i<k. load_cache e (fs (after_retries e warn_empty i s)) = Inl EOFError"
    by (simp add: load_cache_empty)
  then have "read_golden_ptns e folderpath s =
       read_golden_ptns e folderpath (after_retries e warn_empty k s)"
    by (rule read_after_retries)
  moreover from h have "load_cache e (fs (after_retries e warn_empty k s)) = Inr lib"
    by (simp add: load_cache_valid)
  ultimately show "read_golden_ptns e folderpath s =
                Some (Inr lib, emit (PickleLoad cache_path) (after_retries e warn_empty k s))"
    by (simp add: read_hit)
next
  assume "\<forall>i. open_rb (fs (after_retries e warn_empty i s)) cache_path = Inr []"
  then have "\<forall>i. load_cache e (fs (after_retries e warn_empty i s)) = Inl EOFError"
    by (simp add: load_cache_empty)
  then show "read_golden_ptns e folderpath s = None" by (rule read_never_returns)
qed

theorem empty_cache_waits_witness:
  "open_rb (fs empty_cache_state) cache_path = Inr []
   \<and> open_rb (fs (after_retries writer_env warn_empty (Suc 0) empty_cache_state)) cache_path = Inr []
   \<and> open_rb (fs (after_retries writer_env warn_empty (Suc (Suc 0)) empty_cache_state)) cache_path
       = Inr [1]
   \<and> read_golden_ptns writer_env ''golden_wav'' empty_cache_state =
       Some (Inr sample_library,
             emit (PickleLoad cache_path)
               (after_retries writer_env warn_empty (Suc (Suc 0)) empty_cache_state))
   \<and> (\<forall>i. open_rb (fs (after_retries sample_env warn_empty i empty_cache_state)) cache_path
            = Inr [])
   \<and> read_golden_ptns sample_env ''golden_wav'' empty_cache_state = None"
proof -
  have a: "open_rb (fs empty_cache_state) cache_path = Inr []"
    by (simp add: open_rb_def cache_path_eq empty_cache_state_def files_with_cache_def)
  have b: "open_rb (fs (after_retries writer_env warn_empty (Suc 0) empty_cache_state)) cache_path
             = Inr []"
    by (simp add: step_defs world_defs)
  have c: "open_rb (fs (after_retries writer_env warn_empty (Suc (Suc 0)) empty_cache_state))
             cache_path = Inr [1]"
    by (simp add: step_defs world_defs)
  have d: "pickle_loads writer_env [1] = Inr sample_library"
    by (simp add: world_defs)
  have e: "\<forall>i<Suc (Suc 0). open_rb (fs (after_retries writer_env warn_empty i empty_cache_state))
             cache_path = Inr []"
    using a b by (simp add: less_Suc_eq)
  have q: "others sample_env = (\<lambda>n f. f)" by (simp add: sample_env_def)
  have f: "\<forall>i. open_rb (fs (after_retries sample_env warn_empty i empty_cache_state)) cache_path
            = Inr []"
    using a by (simp add: fs_after_retries_quiet [OF q])
  from empty_cache_waits [OF a, where k = "Suc (Suc 0)" and e = writer_env and bs = "[1]"
      and lib = sample_library and folderpath = "''golden_wav''"]
    c d e
  have g: "read_golden_ptns writer_env ''golden_wav'' empty_cache_state =
       Some (Inr sample_library,
             emit (PickleLoad cache_path)
               (after_retries writer_env warn_empty (Suc (Suc 0)) empty_cache_state))"
    by simp
  from empty_cache_waits [OF a, where e = sample_env and folderpath = "''golden_wav''"] f
  have h: "read_golden_ptns sample_env ''golden_wav'' empty_cache_state = None"
    by simp
  from a b c g f h show ?thesis by blast
qed

text \<open>
  The claim as stated fails when no other process writes the pickle: on an empty
  pickle the call never returns.
\<close>

theorem empty_cache_waits_counterexample:
  "open_rb (fs empty_cache_state) cache_path = Inr []
   \<and> read_golden_ptns sample_env ''golden_wav'' empty_cache_state = None"
proof -
  have q: "others sample_env = (\<lambda>n f. f)" by (simp add: sample_env_def)
  have o: "open_rb (fs empty_cache_state) cache_path = Inr []"
    by (simp add: open_rb_def cache_path_eq empty_cache_state_def files_with_cache_def)
  then have "\<forall>i. load_cache sample_env (fs (after_retries sample_env warn_empty i empty_cache_state))
            = Inl EOFError"
    by (simp add: fs_after_retries_quiet [OF q] load_cache_empty)
  from read_never_returns [OF this] o show ?thesis by simp
qed




section \<open>Claims about the identification of a target file\<close>

text \<open>
  Claim C9, as amended. When the golden patterns have been obtained and no
  \<^verbatim>\<open>ffmpeg\<close> executable is found, the call prints the line that asks for ffmpeg
  and leaves through \<^verbatim>\<open>sys.exit(2)\<close>: it neither returns a result nor raises an
  \<open>OSError\<close>.
\<close>

theorem missing_tool_exits:
  assumes "ffmpeg e = None"
    and "read_golden_ptns e ''golden_wav'' s = Some (Inr golden_ptns, s1)"
  shows "televoice_identify e file_path threshold scan_step multiproc s =
           Some (Inl (SystemExit 2), emit (Printed ffmpeg_required) s1)"
  using assms by (simp add: televoice_identify_def subprocess_run_def)

theorem missing_tool_exits_witness:
  "ffmpeg no_tool_env = None
   \<and> read_golden_ptns no_tool_env ''golden_wav'' cached_state =
       Some (Inr sample_library, emit (PickleLoad cache_path) cached_state)
   \<and> televoice_identify no_tool_env ''calls/A1_test.wav'' None 1 False cached_state =
       Some (Inl (SystemExit 2),
             emit (Printed ffmpeg_required) (emit (PickleLoad cache_path) cached_state))"
proof -
  have a: "ffmpeg no_tool_env = None" by (simp add: no_tool_env_def)
  have "pickle_loads no_tool_env [1] = Inr sample_library" by (simp add: world_defs)
  from cached_read [OF this]
  have b: "read_golden_ptns no_tool_env ''golden_wav'' cached_state =
       Some (Inr sample_library, emit (PickleLoad cache_path) cached_state)" .
  from missing_tool_exits [OF a b] a b show ?thesis by simp
qed

text \<open>
  The claim as stated fails when the golden patterns cannot be read: without the
  tool, without pickle and without reference folder the call raises
  \<open>FileNotFoundError\<close> from the listing of the folder, before the tool is looked for.
\<close>

theorem missing_tool_exits_counterexample:
  "ffmpeg no_tool_env = None
   \<and> map_option fst
        (televoice_identify no_tool_env ''calls/A1_test.wav'' None 1 False bare_state)
      = Some (Inl FileNotFoundError)"
  by (simp add: televoice_identify_def bare_read Let_def)
     (simp add: step_defs world_defs)

text \<open>
  Claim C2, as amended. When the call returns a result, the temporary file named
  after the target is no longer on disk, unless the file system refuses to delete it
  (an error the call passes over). When the call raises after the tool has run, it
  deletes nothing: the files are as the tool left them.
\<close>

theorem tmp_removed_on_return:
  "(televoice_identify e file_path threshold scan_step multiproc s = Some (Inr r, s') \<longrightarrow>
      files (fs s') (tmp_path file_path) = None \<or> denied (fs s') Deleting (tmp_path file_path))
   \<and> (read_golden_ptns e ''golden_wav'' s = Some (Inr golden_ptns, s1)
        \<and> ffmpeg e = Some tool
        \<and> televoice_identify e file_path threshold scan_step multiproc s = Some (Inl x, s') \<longrightarrow>
      fs s' = tool (ffmpeg_args file_path (tmp_path file_path)) (fs s1))"
proof (intro conjI impI)
  assume "televoice_identify e file_path threshold scan_step multiproc s = Some (Inr r, s')"
  then show "files (fs s') (tmp_path file_path) = None
               \<or> denied (fs s') Deleting (tmp_path file_path)"
    by (auto simp: televoice_identify_def Let_def subprocess_run_def
        split: option.splits sum.splits prod.splits if_splits dest: compare_target_gone)
next
  assume "read_golden_ptns e ''golden_wav'' s = Some (Inr golden_ptns, s1)
        \<and> ffmpeg e = Some tool
        \<and> televoice_identify e file_path threshold scan_step multiproc s = Some (Inl x, s')"
  then show "fs s' = tool (ffmpeg_args file_path (tmp_path file_path)) (fs s1)"
    by (auto simp: televoice_identify_def Let_def subprocess_run_def emit_def
        dest!: compare_target_raise_keeps)
qed

theorem tmp_removed_on_return_witness:
  "(\<exists>r s'. televoice_identify sample_env ''calls/A1_test.wav'' None 1 False cached_state
              = Some (Inr r, s')
          \<and> \<not> denied (fs s') Deleting (tmp_path ''calls/A1_test.wav'')
          \<and> files (fs s') (tmp_path ''calls/A1_test.wav'') = None)
   \<and> (\<exists>s'. televoice_identify header_only_env ''calls/A1_test.wav'' None 1 False cached_state
              = Some (Inl ValueError, s')
          \<and> files (fs s') (tmp_path ''calls/A1_test.wav'') = Some [0])"
proof -
  let ?fp = "''calls/A1_test.wav''"
  let ?s1 = "emit (PickleLoad cache_path) cached_state"
  have l1: "pickle_loads sample_env [1] = Inr sample_library" by (simp add: world_defs)
  have l2: "pickle_loads header_only_env [1] = Inr sample_library" by (simp add: world_defs)
  let ?ok = "televoice_identify sample_env ?fp None 1 False cached_state"
  have ok: "map_option fst ?ok =
      Some (Inr \<lparr>filepath = ?fp, diff_indice = [(''A1.wav'', 100), (''B1.wav'', 100)],
                 exe_time = 3\<rparr>)"
    using cached_read [OF l1]
    by (simp add: televoice_identify_def Let_def) (simp add: step_defs world_defs)
  have nd: "map_option (\<lambda>out. denied (fs (snd out)) Deleting (tmp_path ?fp)) ?ok = Some False"
    using cached_read [OF l1]
    by (simp add: televoice_identify_def Let_def) (simp add: step_defs world_defs)
  from ok obtain r s' where out: "?ok = Some (Inr r, s')" by auto
  with nd have nd': "\<not> denied (fs s') Deleting (tmp_path ?fp)" by simp
  from tmp_removed_on_return [where e = sample_env and file_path = ?fp and threshold = None
      and scan_step = 1 and multiproc = False and s = cached_state and r = r and s' = s']
    out nd'
  have gone: "files (fs s') (tmp_path ?fp) = None" by simp
  let ?bad = "televoice_identify header_only_env ?fp None 1 False cached_state"
  have bad: "map_option fst ?bad = Some (Inl ValueError)"
    using cached_read [OF l2]
    by (simp add: televoice_identify_def Let_def) (simp add: step_defs world_defs)
  then obtain s'' where out2: "?bad = Some (Inl ValueError, s'')" by auto
  have tool: "ffmpeg header_only_env
                = Some (\<lambda>args f. f\<lparr>files := (files f)(last args \<mapsto> [0])\<rparr>)"
    by (simp add: world_defs)
  from tmp_removed_on_return [where e = header_only_env and file_path = ?fp
      and threshold = None and scan_step = 1 and multiproc = False and s = cached_state
      and golden_ptns = sample_library and ?s1.0 = ?s1 and x = ValueError and s' = s''
      and tool = "\<lambda>args f. f\<lparr>files := (files f)(last args \<mapsto> [0])\<rparr>"]
    cached_read [OF l2, of "''golden_wav''"] tool out2
  have "fs s'' = (\<lambda>args f. f\<lparr>files := (files f)(last args \<mapsto> [0])\<rparr>)
                   (ffmpeg_args ?fp (tmp_path ?fp)) (fs ?s1)"
    by simp
  then have left: "files (fs s'') (tmp_path ?fp) = Some [0]"
    by (simp add: ffmpeg_args_def)
  from out nd' gone out2 left show ?thesis by blast
qed

text \<open>
  The claim as stated fails when a step after the conversion raises: the tool
  writes a wavfile without samples, the feature extraction raises \<open>ValueError\<close>, and
  the temporary file is still on disk.
\<close>

theorem tmp_removed_on_return_counterexample:
  "map_option fst
      (televoice_identify header_only_env ''calls/A1_test.wav'' None 1 False cached_state)
     = Some (Inl ValueError)
   \<and> map_option (\<lambda>out. files (fs (snd out)) (tmp_path ''calls/A1_test.wav''))
      (televoice_identify header_only_env ''calls/A1_test.wav'' None 1 False cached_state)
     = Some (Some [0])"
proof -
  have "pickle_loads header_only_env [1] = Inr sample_library"
    by (simp add: world_defs)
  from cached_read [OF this] show ?thesis
    by (simp add: televoice_identify_def Let_def) (simp add: step_defs world_defs)
qed

end
